theory Spec2Isabelle
  imports Complex_Main "HOL-Library.Multiset" "HOL-Library.Option_ord"
begin

section \<open>Data model\<close>

text \<open>
  The module \<^verbatim>\<open>functime/evaluation.py\<close> works on panels: data frames of three columns
  (entity, time, value). A panel is a record of its three column names and its rows, in
  the order the caller supplied them. Values are exact reals: rounding of the engine's
  floating-point columns (and their NaN) is outside this model. A value the engine
  reports as missing (null) is \<open>None\<close>. The correlation, quantile and normality
  primitives of the libraries the module imports, and the metric functions, are
  parameters of the functions that call them.
\<close>

type_synonym entity = string

record panel =
  entity_col :: string
  time_col :: string
  target_col :: string
  rows :: "(entity \<times> nat \<times> real) list"

text \<open>
  Every way a call can fail is a value. The first group are Python's own exceptions,
  the second group the data-frame engine's, the third group the two conditions that
  only the specification names: no line of the module constructs
  \<open>InvalidParameter\<close>, and \<open>InsufficientSamples\<close> is what the external normality
  primitive fails with on a sample that is too short.
\<close>

datatype error =
    TypeError string
  | KeyError string
  | AttributeError string
  | ColumnNotFoundError string
  | DuplicateError string
  | ComputeError string
  | ShapeError string
  | PanicException string
  | InvalidParameter string
  | InsufficientSamples

text \<open>The Python values that the module passes between its functions.\<close>

datatype pyval =
    PyFrame panel
  | PyStr string
  | PyBool bool
  | PyDict
  | PyNone

section \<open>Data-frame operations\<close>

text \<open>
  \<open>groupby\<close> collects the rows of each key. The engine promises no order of the groups;
  the model lists them by first appearance.
\<close>

fun groupby :: "('k \<times> 'v) list \<Rightarrow> ('k \<times> 'v list) list" where
  "groupby [] = []"
| "groupby ((k, v) # rs) =
     (k, v # map snd (filter (\<lambda>r. fst r = k) rs)) # groupby (filter (\<lambda>r. fst r \<noteq> k) rs)"

definition entity_values :: "panel \<Rightarrow> (entity \<times> real) list" where
  "entity_values X = map (\<lambda>(e, t, v). (e, v)) (rows X)"

text \<open>Sorting a two-column frame by its value column (stable on ties).\<close>

definition sort_frame :: "bool \<Rightarrow> ('k \<times> real) list \<Rightarrow> ('k \<times> real) list" where
  "sort_frame descending t = sort_key (\<lambda>r. if descending then - snd r else snd r) t"

definition mean :: "real list \<Rightarrow> real" where
  "mean xs = sum_list xs / real (length xs)"

section \<open>Calls with keyword arguments\<close>

text \<open>
  A Python call that passes every argument by keyword binds each keyword to the
  parameter of that name. A keyword that names no parameter raises \<open>TypeError\<close>;
  so does a parameter left without a value.
\<close>

definition call_keywords ::
  "string \<Rightarrow> string list \<Rightarrow> (string \<times> pyval) list \<Rightarrow> error + (string \<rightharpoonup> pyval)" where
  "call_keywords f params kwargs =
     (case filter (\<lambda>k. k \<notin> set params) (map fst kwargs) of
        k # _ \<Rightarrow> Inl (TypeError (f @ ''() got an unexpected keyword argument '' @ k))
      | [] \<Rightarrow>
          (case filter (\<lambda>p. p \<notin> set (map fst kwargs)) params of
             p # _ \<Rightarrow> Inl (TypeError (f @ ''() missing required argument '' @ p))
           | [] \<Rightarrow> Inr (map_of kwargs)))"

section \<open>Ranking forecasts\<close>

text \<open>
  \<^verbatim>\<open>_rank_entities_by_stat\<close> (the leading underscore is dropped). The aggregation is
  looked up by name in the engine's namespace, \<^verbatim>\<open>getattr(pl, sort_by)\<close>; the namespace
  is the parameter \<open>pl\<close>. The aggregated column keeps the name of the target column,
  and the frame is then sorted by the column called \<open>sort_by\<close>.
\<close>

definition rank_entities_by_stat ::
  "(string \<rightharpoonup> (real list \<Rightarrow> real)) \<Rightarrow> panel \<Rightarrow> string \<Rightarrow> bool \<Rightarrow> error + (entity \<times> real) list" where
  "rank_entities_by_stat pl y_true sort_by descending =
     (case pl sort_by of
        None \<Rightarrow> Inl (AttributeError sort_by)
      | Some stat \<Rightarrow>
          (let agg = map (\<lambda>(e, vs). (e, stat vs)) (groupby (entity_values y_true))
           in if sort_by = target_col y_true then Inr (sort_frame descending agg)
              else if sort_by = entity_col y_true then Inl (DuplicateError sort_by)
              else Inl (ColumnNotFoundError sort_by)))"

text \<open>
  \<^verbatim>\<open>_rank_entities_by_score\<close>: \<^verbatim>\<open>SORT_BY_TO_METRIC(y_true)\<close> returns a dict, and the
  function then calls that dict with \<^verbatim>\<open>(sort_by)\<close> instead of indexing it.
\<close>

definition rank_entities_by_score ::
  "panel \<Rightarrow> panel \<Rightarrow> string \<Rightarrow> bool \<Rightarrow> error + (entity \<times> real) list" where
  "rank_entities_by_score y_true y_pred sort_by descending =
     Inl (TypeError ''dict object is not callable'')"

definition rank_entities ::
  "(string \<rightharpoonup> (real list \<Rightarrow> real)) \<Rightarrow> panel \<Rightarrow> panel \<Rightarrow> string \<Rightarrow> bool
     \<Rightarrow> error + (entity \<times> real) list" where
  "rank_entities pl y_pred y_true sort_by descending =
     (if sort_by \<in> set [''mean'', ''median'', ''std'', ''cv'']
      then rank_entities_by_stat pl y_true sort_by descending
      else rank_entities_by_score y_true y_pred sort_by descending)"

text \<open>
  \<^verbatim>\<open>rank_forecasts\<close> calls \<^verbatim>\<open>_rank_entities(y=y_true, y_pred=y_pred, sort_by=sort_by,
  descending=descending)\<close>; the parameters of \<^verbatim>\<open>_rank_entities\<close> are
  \<^verbatim>\<open>y_pred, y_true, sort_by, descending\<close>.
\<close>

definition rank_forecasts ::
  "(string \<rightharpoonup> (real list \<Rightarrow> real)) \<Rightarrow> panel \<Rightarrow> panel \<Rightarrow> bool \<Rightarrow> string
     \<Rightarrow> error + (entity \<times> real) list" where
  "rank_forecasts pl y_pred y_true descending sort_by =
     (case call_keywords ''_rank_entities'' [''y_pred'', ''y_true'', ''sort_by'', ''descending'']
             [(''y'', PyFrame y_true), (''y_pred'', PyFrame y_pred),
              (''sort_by'', PyStr sort_by), (''descending'', PyBool descending)] of
        Inl e \<Rightarrow> Inl e
      | Inr args \<Rightarrow>
          (case (args ''y_pred'', args ''y_true'', args ''sort_by'', args ''descending'') of
             (Some (PyFrame p), Some (PyFrame t), Some (PyStr s), Some (PyBool d)) \<Rightarrow>
               rank_entities pl p t s d
           | _ \<Rightarrow> Inl (TypeError ''_rank_entities'')))"

section \<open>Ranking residuals\<close>

text \<open>
  Aggregating each group with an expression that may fail: the first failure aborts
  the whole query. An expression that applies a Python function (\<^verbatim>\<open>apply\<close>) cannot
  be evaluated on a frame without rows: the engine cannot determine its output type.
\<close>

fun agg :: "('v list \<Rightarrow> error + 'w) \<Rightarrow> ('k \<times> 'v list) list \<Rightarrow> error + ('k \<times> 'w) list" where
  "agg f [] = Inr []"
| "agg f ((k, vs) # gs) =
     (case f vs of
        Inl e \<Rightarrow> Inl e
      | Inr w \<Rightarrow> (case agg f gs of Inl e \<Rightarrow> Inl e | Inr t \<Rightarrow> Inr ((k, w) # t)))"

definition apply_groups ::
  "('v list \<Rightarrow> error + 'w) \<Rightarrow> ('k \<times> 'v list) list \<Rightarrow> error + ('k \<times> 'w) list" where
  "apply_groups f gs =
     (if gs = [] then Inl (ComputeError ''apply: cannot determine output type'')
      else agg f gs)"

text \<open>
  The dict \<^verbatim>\<open>sort_by_to_expr\<close> of \<^verbatim>\<open>rank_residuals\<close>, each expression as the
  aggregation it performs on the groups of residuals.
  \<^verbatim>\<open>pl.col(target_col).mean().abs()\<close> is the absolute value of the mean. The third entry
  applies \<^verbatim>\<open>normality_test\<close>, which reads \<^verbatim>\<open>X.columns\<close>, to the group's column, which
  is a series and has no such attribute.
\<close>

definition sort_by_to_expr ::
  "(string \<times> ((entity \<times> real list) list \<Rightarrow> error + (entity \<times> real) list)) list" where
  "sort_by_to_expr =
     [(''bias'', \<lambda>gs. Inr (map (\<lambda>(e, vs). (e, \<bar>mean vs\<bar>)) gs)),
      (''abs_bias'', \<lambda>gs. Inr (map (\<lambda>(e, vs). (e, \<bar>mean vs\<bar>)) gs)),
      (''normality'',
         apply_groups (\<lambda>vs. Inl (AttributeError ''Series object has no attribute columns'')))]"

text \<open>
  \<^verbatim>\<open>rank_residuals\<close>. The dict is indexed while the arguments of \<^verbatim>\<open>agg\<close> are built,
  before the engine runs. The aggregated column is renamed to \<open>sort_by\<close>; the engine
  refuses a frame with two columns of one name, which is the case when the entity
  column already has that name.
\<close>

definition rank_residuals :: "panel \<Rightarrow> string \<Rightarrow> int \<Rightarrow> real \<Rightarrow> error + (entity \<times> real) list" where
  "rank_residuals y_resids sort_by max_lags alpha =
     (case map_of sort_by_to_expr sort_by of
        None \<Rightarrow> Inl (KeyError sort_by)
      | Some expr \<Rightarrow>
          if sort_by = entity_col y_resids then Inl (DuplicateError sort_by)
          else
            (case expr (groupby (entity_values y_resids)) of
               Inl e \<Rightarrow> Inl e
             | Inr t \<Rightarrow> Inr (sort_frame False t)))"

text \<open>The values of one entity, in row order, and the entities of a panel.\<close>

definition series_of :: "panel \<Rightarrow> entity \<Rightarrow> real list" where
  "series_of X e = map snd (filter (\<lambda>r. fst r = e) (entity_values X))"

definition entities :: "panel \<Rightarrow> entity set" where
  "entities X = fst ` set (rows X)"

text \<open>The specification's reading of the bias criteria: the mean of the absolute values.\<close>

definition mean_abs :: "real list \<Rightarrow> real" where
  "mean_abs vs = mean (map abs vs)"

section \<open>The Ljung-Box engine\<close>

text \<open>
  \<^verbatim>\<open>x.shift(i)\<close> moves a column down by \<open>i\<close> rows and fills the top with nulls.
  \<^verbatim>\<open>pl.corr(a, b, ddof)\<close> is the engine's correlation primitive: the parameter \<open>corr\<close>
  below. It is null where the engine cannot compute it (too few pairs of rows are left
  for the \<open>ddof\<close>). \<^verbatim>\<open>range(1, max_lags + 1)\<close> is \<open>lags max_lags\<close>; it is empty when
  \<open>max_lags < 1\<close>.
\<close>

type_synonym corr = "real list \<Rightarrow> real option list \<Rightarrow> nat \<Rightarrow> real option"

definition shift :: "nat \<Rightarrow> real list \<Rightarrow> real option list" where
  "shift i xs = replicate (min i (length xs)) None @ map Some (take (length xs - i) xs)"

definition lags :: "int \<Rightarrow> nat list" where
  "lags max_lags = [1..<nat (max_lags + 1)]"

text \<open>
  The cumulative sum of a column: a null stays null and adds nothing to the running
  sum.
\<close>

fun cumsum_from :: "real \<Rightarrow> real option list \<Rightarrow> real option list" where
  "cumsum_from s [] = []"
| "cumsum_from s (None # xs) = None # cumsum_from s xs"
| "cumsum_from s (Some x # xs) = Some (s + x) # cumsum_from (s + x) xs"

definition cumsum :: "real option list \<Rightarrow> real option list" where
  "cumsum xs = cumsum_from 0 xs"

text \<open>
  The column \<^verbatim>\<open>length\<close> is a 32-bit unsigned integer column, and sums and products
  of such columns wrap around.
\<close>

definition u32 :: "nat \<Rightarrow> nat" where
  "u32 n = n mod 2 ^ 32"

text \<open>
  \<open>explode\<close> turns a row holding a list into one row per element, repeating the other
  columns. The lists this module explodes are never empty. \<open>explode_rows\<close> is the
  operation on a frame whose only other column is the key.
\<close>

definition explode_rows :: "('k \<times> 'r list) list \<Rightarrow> ('k \<times> 'r) list" where
  "explode_rows t = concat (map (\<lambda>(k, rs). map (\<lambda>r. (k, r)) rs) t)"

definition explode :: "('k \<times> 'a list \<times> 'b) list \<Rightarrow> ('k \<times> 'a \<times> 'b) list" where
  "explode t = explode_rows (map (\<lambda>(k, xs, b). (k, map (\<lambda>x. (x, b)) xs)) t)"

definition starts_with :: "string \<Rightarrow> string \<Rightarrow> bool" where
  "starts_with p s = (take (length p) s = p)"

text \<open>
  \<^verbatim>\<open>_acf_sqr_ratio\<close>: the expressions of one entity's aggregation, evaluated on the
  entity's series \<open>x\<close>: the columns \<^verbatim>\<open>acorr_1 .. acorr_max_lags\<close> and \<^verbatim>\<open>length\<close>.
  A null correlation gives a null quotient. At a lag \<open>k \<ge> n\<close> no row is left to
  correlate and the quotient is missing.
\<close>

definition acf_sqr_ratio :: "corr \<Rightarrow> int \<Rightarrow> real list \<Rightarrow> real option list \<times> nat" where
  "acf_sqr_ratio corr max_lags x =
     (let n = length x;
          acf = map (\<lambda>i. corr x (shift i x) i) (lags max_lags);
          acf_sqr = map (map_option (\<lambda>a. a ^ 2)) acf;
          acf_sqr_ratio =
            map (\<lambda>(a, k). if k < n then map_option (\<lambda>a. a / (real n - real k)) a else None)
              (zip acf_sqr (lags max_lags))
      in (acf_sqr_ratio, n))"

text \<open>
  \<^verbatim>\<open>_qstat_ljung_box\<close>, on the two columns of one group of the exploded frame. The
  product \<^verbatim>\<open>length * (length + 2)\<close> is taken in the integer column type, before the
  multiplication by the floating-point cumulative sum.
\<close>

definition qstat_ljung_box :: "real option list \<Rightarrow> nat list \<Rightarrow> real option list" where
  "qstat_ljung_box acf len =
     map (\<lambda>(l, c). map_option (\<lambda>c. real (u32 (l * u32 (l + 2))) * c) c) (zip len (cumsum acf))"

text \<open>
  The queries name their intermediate columns. An entity column that has one of these
  names, or that the selector \<^verbatim>\<open>cs.starts_with\<close> matches as well, does not give the
  table described here; the model makes such a call fail.
\<close>

definition ljung_box_name_clash :: "string \<Rightarrow> bool" where
  "ljung_box_name_clash c =
     (c \<in> set [''length'', ''acf'', ''qstats''] \<or> starts_with ''acorr_'' c)"

text \<open>
  \<^verbatim>\<open>ljung_box_test\<close>. With no lag there is no \<^verbatim>\<open>acorr_\<close> column for
  \<^verbatim>\<open>concat_list\<close> to collect, and the engine panics.
\<close>

definition ljung_box_test :: "corr \<Rightarrow> panel \<Rightarrow> int \<Rightarrow> error + (entity \<times> real option list) list" where
  "ljung_box_test corr X max_lags =
     (let aggregated = map (\<lambda>(e, x). (e, acf_sqr_ratio corr max_lags x)) (groupby (entity_values X))
      in if ljung_box_name_clash (entity_col X) then Inl (DuplicateError (entity_col X))
         else if lags max_lags = [] then Inl (PanicException ''concat_list: no column selected'')
         else Inr (map (\<lambda>(e, rs). (e, qstat_ljung_box (map fst rs) (map snd rs)))
                     (groupby (explode aggregated))))"

section \<open>The ACF engine\<close>

text \<open>
  The first step of \<^verbatim>\<open>acf\<close> subtracts from every value the mean of its entity's
  values (a window expression: the rows keep their order).
\<close>

definition demean :: "panel \<Rightarrow> (entity \<times> real) list" where
  "demean X = map (\<lambda>(e, v). (e, v - mean (series_of X e))) (entity_values X)"

text \<open>
  \<^verbatim>\<open>acf_formula\<close>, evaluated on one entity's series: the columns
  \<^verbatim>\<open>acorr_0 .. acorr_max_lags\<close> and \<^verbatim>\<open>length\<close>.
\<close>

definition acf_formula :: "corr \<Rightarrow> real list \<Rightarrow> int \<Rightarrow> real option list \<times> nat" where
  "acf_formula corr x max_lags =
     (let n = length x;
          acf = map (\<lambda>i. corr x (shift i x) i) (lags max_lags)
      in (Some 1 # acf, n))"

text \<open>
  \<^verbatim>\<open>acf_confint_formula\<close>, on the columns \<^verbatim>\<open>acf\<close> and \<^verbatim>\<open>length\<close> of one group of
  the exploded frame.
\<close>

definition acf_confint_formula :: "real option list \<Rightarrow> nat list \<Rightarrow> real \<Rightarrow> real option list" where
  "acf_confint_formula acf len ppf =
     (let var_acf = map (map_option (\<lambda>c. 1 + 2 * c)) (cumsum (map (map_option (\<lambda>a. a ^ 2)) acf));
          intervals =
            map (\<lambda>(l, v). map_option (\<lambda>v. ppf * sqrt ((1 / real l) * v)) v) (zip len var_acf)
      in intervals)"

text \<open>
  \<^verbatim>\<open>expr.slice(offset, length)\<close>. The length is a Python integer; the engine wants an
  unsigned one and fails on a negative length.
\<close>

definition slice :: "nat \<Rightarrow> int \<Rightarrow> 'a list \<Rightarrow> error + 'a list" where
  "slice offset len xs =
     (if len < 0 then Inl (ComputeError ''slice: unable to extract length'')
      else Inr (take (nat len) (drop offset xs)))"

text \<open>
  The second aggregation of \<^verbatim>\<open>acf\<close> and the selection after it, on one group of the
  exploded frame: the column \<^verbatim>\<open>acf\<close>, and the list that \<^verbatim>\<open>concat_list\<close> builds from
  \<^verbatim>\<open>interval_0\<close>, \<^verbatim>\<open>interval_1\<close> and the sliced \<^verbatim>\<open>interval\<close>. A group of
  \<open>groupby\<close> has at least one row, so \<^verbatim>\<open>first()\<close> has a value.
\<close>

definition acf_interval ::
  "real \<Rightarrow> int \<Rightarrow> (real option \<times> nat) list \<Rightarrow> error + real option list \<times> real option list" where
  "acf_interval ppf max_lags rs =
     (let acf = map fst rs;
          len = map snd rs;
          interval_0 = Some 0;
          interval_1 = Some (ppf * sqrt (1 / real (hd len)))
      in case slice 1 (max_lags - 1) (acf_confint_formula acf len ppf) of
           Inl e \<Rightarrow> Inl e
         | Inr interval \<Rightarrow> Inr (acf, interval_0 # interval_1 # interval))"

text \<open>
  Exploding two list columns at once: the lists of a row must have the same length.
\<close>

definition explode2 :: "('k \<times> 'a list \<times> 'b list) list \<Rightarrow> error + ('k \<times> 'a \<times> 'b) list" where
  "explode2 t =
     (if list_all (\<lambda>(k, xs, ys). length xs = length ys) t
      then Inr (explode_rows (map (\<lambda>(k, xs, ys). (k, zip xs ys)) t))
      else Inl (ShapeError ''exploded columns must have matching element counts''))"

text \<open>Arithmetic on two values either of which may be null.\<close>

definition lift2 :: "(real \<Rightarrow> real \<Rightarrow> real) \<Rightarrow> real option \<Rightarrow> real option \<Rightarrow> real option" where
  "lift2 f a b = (case (a, b) of (Some x, Some y) \<Rightarrow> Some (f x y) | _ \<Rightarrow> None)"

record acf_row =
  acf_col :: "real option list"
  confint_lower :: "real option list"
  confint_upper :: "real option list"

definition acf_name_clash :: "string \<Rightarrow> bool" where
  "acf_name_clash c =
     (c \<in> set [''length'', ''acf'', ''confint_lower'', ''confint_upper''] \<or>
      starts_with ''acorr_'' c \<or> starts_with ''interval'' c)"

text \<open>
  \<^verbatim>\<open>acf\<close>. \<open>norm_ppf\<close> is the quantile function of the normal distribution,
  \<^verbatim>\<open>scipy.stats.norm.ppf\<close>: it returns a value for every argument and never raises.
\<close>

definition acf ::
  "(real \<Rightarrow> real) \<Rightarrow> corr \<Rightarrow> panel \<Rightarrow> int \<Rightarrow> real \<Rightarrow> error + (entity \<times> acf_row) list" where
  "acf norm_ppf corr X max_lags alpha =
     (let ppf = norm_ppf (1 - alpha / 2);
          aggregated = map (\<lambda>(e, x). (e, acf_formula corr x max_lags)) (groupby (demean X))
      in if acf_name_clash (entity_col X) then Inl (DuplicateError (entity_col X))
         else
           (case agg (acf_interval ppf max_lags) (groupby (explode aggregated)) of
              Inl e \<Rightarrow> Inl e
            | Inr intervals \<Rightarrow>
                (case explode2 intervals of
                   Inl e \<Rightarrow> Inl e
                 | Inr exploded \<Rightarrow>
                     Inr (map (\<lambda>(e, rs).
                            (e, \<lparr>acf_col = map fst rs,
                                 confint_lower = map (\<lambda>(a, i). lift2 (-) a i) rs,
                                 confint_upper = map (\<lambda>(a, i). lift2 (+) a i) rs\<rparr>))
                          (groupby exploded)))))"

text \<open>
  Bartlett's variance of the lag-\<open>k\<close> autocorrelation as the specification states it:
  one plus twice the sum of the squared autocorrelations of the lags 1 to \<open>k - 1\<close>.
\<close>

definition bartlett_var :: "(nat \<Rightarrow> real) \<Rightarrow> nat \<Rightarrow> real" where
  "bartlett_var r k = 1 + 2 * (\<Sum>j = 1..k - 1. (r j) ^ 2)"

section \<open>The normality engine\<close>

text \<open>
  Modelled from the spec: the external normality primitive (\<^verbatim>\<open>scipy.stats.normaltest\<close>,
  not part of the module). It requires a minimum sample size; below that minimum it
  fails with the condition the specification calls \<open>InsufficientSamples\<close>, otherwise it
  returns its test statistic. The minimum and the statistic are parameters.
\<close>

definition normaltest :: "nat \<Rightarrow> (real list \<Rightarrow> real) \<Rightarrow> real list \<Rightarrow> error + real" where
  "normaltest min_size statistic xs =
     (if length xs < min_size then Inl InsufficientSamples else Inr (statistic xs))"

text \<open>
  \<^verbatim>\<open>normality_test\<close> applies the primitive to each entity's values inside one
  aggregation; an exception raised by the primitive ends the aggregation.
\<close>

definition normality_test :: "(real list \<Rightarrow> error + real) \<Rightarrow> panel \<Rightarrow> error + (entity \<times> real) list" where
  "normality_test primitive X = apply_groups primitive (groupby (entity_values X))"

section \<open>Forecast value added\<close>

text \<open>
  A metric is a Python function, the caller's or one of \<^verbatim>\<open>functime.metrics\<close> (the
  default is \<^verbatim>\<open>smape\<close>); none is in the source under study, so each is a parameter.
  \<^verbatim>\<open>rank_fva\<close> calls it with \<^verbatim>\<open>y_pred\<close> a data frame, and then it returns one score
  per entity (\<open>on_frames\<close>), or with \<^verbatim>\<open>y_pred\<close> the empty dict, and what it does then is
  the metric's own affair (\<open>on_dict\<close>).
\<close>

record metric =
  on_frames :: "panel \<Rightarrow> panel \<Rightarrow> (entity \<times> real) list"
  on_dict :: "panel \<Rightarrow> error + (entity \<times> real) list"

definition call_metric :: "metric \<Rightarrow> panel \<Rightarrow> pyval \<Rightarrow> error + (entity \<times> real) list" where
  "call_metric m y_true y_pred =
     (case y_pred of
        PyFrame p \<Rightarrow> Inr (on_frames m y_true p)
      | _ \<Rightarrow> on_dict m y_true)"

text \<open>
  A left join on the key column: every row of the left frame, once for each matching
  row of the right frame, or once with a null when no row matches.
\<close>

definition left_join :: "('k \<times> 'a) list \<Rightarrow> ('k \<times> 'b) list \<Rightarrow> ('k \<times> 'a \<times> 'b option) list" where
  "left_join l r =
     concat (map (\<lambda>(k, a).
       case filter (\<lambda>x. fst x = k) r of
         [] \<Rightarrow> [(k, a, None)]
       | ms \<Rightarrow> map (\<lambda>x. (k, a, Some (snd x))) ms) l)"

text \<open>
  Sorting by a column that may hold nulls: the rows with a value are sorted by it; the
  nulls come first in ascending order and last in descending order.
\<close>

definition sort_nullable :: "bool \<Rightarrow> ('r \<Rightarrow> real option) \<Rightarrow> 'r list \<Rightarrow> 'r list" where
  "sort_nullable descending key t =
     (let nulls = filter (\<lambda>r. key r = None) t;
          sorted_values =
            sort_key (\<lambda>r. case key r of None \<Rightarrow> 0 | Some v \<Rightarrow> if descending then - v else v)
              (filter (\<lambda>r. key r \<noteq> None) t)
      in if descending then sorted_values @ nulls else nulls @ sorted_values)"

record uplift_row =
  uplift :: "real option"
  has_uplift :: "bool option"

text \<open>
  \<^verbatim>\<open>rank_fva\<close>. \<open>smape\<close> is the module's default metric. Both score frames come from the
  same metric, so their score columns have the same name.
\<close>

definition rank_fva ::
  "metric \<Rightarrow> panel \<Rightarrow> panel \<Rightarrow> panel option \<Rightarrow> metric option \<Rightarrow> bool
     \<Rightarrow> error + (entity \<times> uplift_row) list" where
  "rank_fva smape y_true y_pred y_pred_bench scoring descending =
     (let scoring = (case scoring of None \<Rightarrow> smape | Some m \<Rightarrow> m)
      in case call_metric scoring y_true (PyFrame y_pred) of
           Inl e \<Rightarrow> Inl e
         | Inr scores \<Rightarrow>
             (let y_pred_bench = (case y_pred_bench of None \<Rightarrow> PyDict | Some b \<Rightarrow> PyFrame b)
              in case call_metric scoring y_true y_pred_bench of
                   Inl e \<Rightarrow> Inl e
                 | Inr scores_bench \<Rightarrow>
                     Inr (sort_nullable descending (\<lambda>r. uplift (snd r))
                       (map (\<lambda>(e, score, bench).
                              (e, \<lparr>uplift = map_option (\<lambda>b. b - score) bench,
                                   has_uplift = map_option (\<lambda>b. b - score > 0) bench\<rparr>))
                          (left_join scores scores_bench)))))"

section \<open>Theorems\<close>

subsection \<open>Frames\<close>

lemma groupby_keys: "fst ` set (groupby rs) = fst ` set rs"
  by (induction rs rule: groupby.induct) auto

lemma groupby_distinct: "distinct (map fst (groupby rs))"
proof (induction rs rule: groupby.induct)
  case 1
  then show ?case by simp
next
  case (2 k v rs)
  have "k \<notin> fst ` set (groupby (filter (\<lambda>r. fst r \<noteq> k) rs))"
    unfolding groupby_keys by auto
  with 2 show ?case by simp
qed

lemma filter_fst_ne: "k' \<noteq> k \<Longrightarrow> filter (\<lambda>r. fst r = k') (filter (\<lambda>r. fst r \<noteq> k) rs) = filter (\<lambda>r. fst r = k') rs"
  by (induction rs) auto

lemma groupby_nonempty: "(k, vs) \<in> set (groupby rs) \<Longrightarrow> vs \<noteq> []"
proof (induction rs arbitrary: k vs rule: groupby.induct)
  case 1
  then show ?case by simp
next
  case (2 k' v rs)
  then show ?case by (cases "k = k'") auto
qed

lemma groupby_member:
  "(k, vs) \<in> set (groupby rs) \<longleftrightarrow> k \<in> fst ` set rs \<and> vs = map snd (filter (\<lambda>r. fst r = k) rs)"
proof (induction rs rule: groupby.induct)
  case 1
  then show ?case by simp
next
  case (2 k' v rs)
  show ?case
  proof (cases "k = k'")
    case True
    have "k' \<notin> fst ` set (groupby (filter (\<lambda>r. fst r \<noteq> k') rs))"
      unfolding groupby_keys by auto
    then have "(k', vs) \<notin> set (groupby (filter (\<lambda>r. fst r \<noteq> k') rs))"
      by force
    with True show ?thesis by auto
  next
    case False
    have "k \<in> fst ` set (filter (\<lambda>r. fst r \<noteq> k') rs) \<longleftrightarrow> k \<in> fst ` set rs"
      using False by auto
    moreover have "filter (\<lambda>x. fst x \<noteq> k' \<and> fst x = k) rs = filter (\<lambda>r. fst r = k) rs"
      using False by (intro filter_cong) auto
    ultimately show ?thesis using False 2 by simp
  qed
qed

lemma explode_rows_keys: "fst ` set (explode_rows t) \<subseteq> fst ` set t"
  by (force simp: explode_rows_def)

lemma filter_absent:
  "k \<notin> fst ` set rs \<Longrightarrow> filter (\<lambda>r. fst r = k) rs = [] \<and> filter (\<lambda>r. fst r \<noteq> k) rs = rs"
  by (induction rs) auto

lemma filter_block:
  "filter (\<lambda>r. fst r = k) (map (\<lambda>x. (k, x)) xs) = map (\<lambda>x. (k, x)) xs"
  "filter (\<lambda>r. fst r \<noteq> k) (map (\<lambda>x. (k, x)) xs) = []"
  by (induction xs) simp_all

lemma groupby_explode_rows:
  "distinct (map fst t) \<Longrightarrow> \<forall>(k, rs) \<in> set t. rs \<noteq> [] \<Longrightarrow> groupby (explode_rows t) = t"
proof (induction t)
  case Nil
  then show ?case by (simp add: explode_rows_def)
next
  case (Cons r t)
  obtain k xs where r: "r = (k, xs)" by (cases r)
  from Cons.prems(2) r have "xs \<noteq> []" by simp
  then obtain x xs' where xs: "xs = x # xs'" by (cases xs) simp_all
  from Cons.prems(1) r have "k \<notin> fst ` set t" by simp
  then have "k \<notin> fst ` set (explode_rows t)" using explode_rows_keys [of t] by blast
  then have ab: "filter (\<lambda>r. fst r = k) (explode_rows t) = []"
    "filter (\<lambda>r. fst r \<noteq> k) (explode_rows t) = explode_rows t"
    by (simp_all add: filter_absent)
  have IH: "groupby (explode_rows t) = t"
    using Cons by simp
  have "explode_rows (r # t) = (k, x) # (map (\<lambda>x. (k, x)) xs' @ explode_rows t)"
    by (simp add: r xs explode_rows_def)
  then have "groupby (explode_rows (r # t)) = (k, x # xs') # groupby (explode_rows t)"
    by (simp add: ab filter_block comp_def)
  then show ?case
    by (simp add: IH r xs)
qed

lemma groupby_explode:
  assumes "distinct (map fst t)" and "\<forall>(k, xs, b) \<in> set t. xs \<noteq> []"
  shows "groupby (explode t) = map (\<lambda>(k, xs, b). (k, map (\<lambda>x. (x, b)) xs)) t"
proof -
  let ?t = "map (\<lambda>(k, xs, b). (k, map (\<lambda>x. (x, b)) xs)) t"
  have "distinct (map fst ?t)"
    using assms(1) by (simp add: comp_def case_prod_unfold)
  moreover have "\<forall>(k, rs) \<in> set ?t. rs \<noteq> []"
    using assms(2) by auto
  ultimately show ?thesis
    unfolding explode_def by (rule groupby_explode_rows)
qed

lemma cumsum_from_length: "length (cumsum_from s xs) = length xs"
  by (induction s xs rule: cumsum_from.induct) simp_all

lemma cumsum_from_nth:
  "j < length xs \<Longrightarrow> \<forall>i\<le>j. xs ! i = Some (f i) \<Longrightarrow>
   cumsum_from s xs ! j = Some (s + (\<Sum>i\<le>j. f i))"
proof (induction xs arbitrary: s j f)
  case Nil
  then show ?case by simp
next
  case (Cons a xs)
  from Cons.prems(2) have a: "a = Some (f 0)" by auto
  show ?case
  proof (cases j)
    case 0
    then show ?thesis by (simp add: a)
  next
    case (Suc j')
    with Cons.prems have "j' < length xs" and "\<forall>i\<le>j'. xs ! i = Some ((f \<circ> Suc) i)"
      by auto
    then have "cumsum_from (s + f 0) xs ! j' = Some (s + f 0 + (\<Sum>i\<le>j'. (f \<circ> Suc) i))"
      by (rule Cons.IH)
    then show ?thesis
      by (simp add: a Suc sum.atMost_Suc_shift del: sum.atMost_Suc)
  qed
qed

lemma cumsum_length: "length (cumsum xs) = length xs"
  by (simp add: cumsum_def cumsum_from_length)

lemma cumsum_nth:
  "j < length xs \<Longrightarrow> \<forall>i\<le>j. xs ! i = Some (f i) \<Longrightarrow> cumsum xs ! j = Some (\<Sum>i\<le>j. f i)"
  using cumsum_from_nth [of j xs f 0] by (simp add: cumsum_def)

lemma lags_length: "length (lags max_lags) = nat max_lags"
  by (simp add: lags_def)

lemma lags_nth:
  assumes "j < nat max_lags"
  shows "lags max_lags ! j = Suc j"
proof -
  from assms have "1 + j < nat (max_lags + 1)" by linarith
  then have "[1..<nat (max_lags + 1)] ! j = 1 + j" by (rule nth_upt)
  then show ?thesis by (simp add: lags_def)
qed

lemma lags_empty: "lags max_lags = [] \<longleftrightarrow> max_lags < 1"
proof -
  have "nat (max_lags + 1) \<le> 1 \<longleftrightarrow> max_lags < 1" by linarith
  then show ?thesis by (auto simp: lags_def)
qed

lemma entity_values_keys: "fst ` set (entity_values X) = entities X"
  by (force simp: entity_values_def entities_def)

lemma agg_total:
  "(\<And>vs. f vs = Inr (g vs)) \<Longrightarrow> agg f gs = Inr (map (\<lambda>(k, vs). (k, g vs)) gs)"
  by (induction gs) auto

lemma sorted_sort_frame: "sorted (map snd (sort_frame False t))"
  by (simp add: sort_frame_def)

lemma set_sort_frame: "set (sort_frame d t) = set t"
  by (simp add: sort_frame_def)

lemma distinct_keys_sort_frame: "distinct (map fst (sort_frame d t)) = distinct (map fst t)"
proof -
  have "mset (map fst (sort_frame d t)) = mset (map fst t)"
    by (simp add: sort_frame_def)
  then show ?thesis
    by (rule mset_eq_imp_distinct_iff)
qed

subsection \<open>The Ljung-Box engine\<close>

lemma acf_sqr_ratio_eq:
  "acf_sqr_ratio corr max_lags x =
     (map (\<lambda>k. if k < length x
                then map_option (\<lambda>r. r ^ 2 / (real (length x) - real k)) (corr x (shift k x) k)
                else None) (lags max_lags), length x)"
  by (simp add: acf_sqr_ratio_def Let_def zip_map1 zip_same_conv_map comp_def option.map_comp)

lemma sum_shift_lags: "(\<Sum>i\<le>j. f (Suc i)) = (\<Sum>i = 1..Suc j. f i)"
proof -
  have "(\<Sum>i\<le>j. f (Suc i)) = (\<Sum>i = 0..j. (f \<circ> Suc) i)"
    by (simp add: atMost_atLeast0)
  also have "\<dots> = (\<Sum>i = Suc 0..Suc j. f i)"
    by (rule sum.atLeast_Suc_atMost_Suc_shift [symmetric])
  finally show ?thesis by simp
qed

lemma qstat_nth:
  assumes "1 \<le> k" and "int k \<le> max_lags" and "k < length x"
    and "\<forall>i \<in> {1..k}. corr x (shift i x) i = Some (r i)"
  shows "qstat_ljung_box (fst (acf_sqr_ratio corr max_lags x))
           (map (\<lambda>a. length x) (fst (acf_sqr_ratio corr max_lags x))) ! (k - 1) =
         Some (real (u32 (length x * u32 (length x + 2))) *
                 (\<Sum>i = 1..k. (r i) ^ 2 / (real (length x) - real i)))"
proof -
  define n where "n = length x"
  define R where "R = fst (acf_sqr_ratio corr max_lags x)"
  define f where "f = (\<lambda>i. (r (Suc i)) ^ 2 / (real n - real (Suc i)))"
  from assms have j: "k - 1 < nat max_lags" "Suc (k - 1) = k" by simp_all
  have lenR: "length R = nat max_lags"
    by (simp add: R_def acf_sqr_ratio_eq lags_length)
  have "R ! i = Some (f i)" if "i \<le> k - 1" for i
  proof -
    from that j have i: "i < nat max_lags" "Suc i \<in> {1..k}" "Suc i < length x"
      using assms(3) by auto
    then have "corr x (shift (Suc i) x) (Suc i) = Some (r (Suc i))"
      using assms(4) by blast
    with i show ?thesis
      by (simp add: R_def acf_sqr_ratio_eq lags_length lags_nth f_def n_def)
  qed
  then have "\<forall>i\<le>k - 1. R ! i = Some (f i)" by blast
  with j lenR have "cumsum R ! (k - 1) = Some (\<Sum>i\<le>k - 1. f i)"
    by (intro cumsum_nth) simp_all
  also have "(\<Sum>i\<le>k - 1. f i) = (\<Sum>i = 1..k. (r i) ^ 2 / (real n - real i))"
    unfolding f_def using sum_shift_lags [of "\<lambda>i. (r i) ^ 2 / (real n - real i)" "k - 1"] j
    by simp
  finally have c: "cumsum R ! (k - 1) = Some (\<Sum>i = 1..k. (r i) ^ 2 / (real n - real i))" .
  have "qstat_ljung_box R (map (\<lambda>a. n) R) ! (k - 1) =
      map_option (\<lambda>c. real (u32 (n * u32 (n + 2))) * c) (cumsum R ! (k - 1))"
    using j lenR by (simp add: qstat_ljung_box_def cumsum_length)
  with c show ?thesis
    by (simp add: R_def n_def)
qed

lemma qstat_length:
  "length (qstat_ljung_box (fst (acf_sqr_ratio corr max_lags x))
             (map (\<lambda>a. length x) (fst (acf_sqr_ratio corr max_lags x)))) = nat max_lags"
  by (simp add: qstat_ljung_box_def cumsum_length acf_sqr_ratio_eq lags_length)

lemma ljung_box_rows:
  assumes "\<not> ljung_box_name_clash (entity_col X)" and "1 \<le> max_lags"
  shows "ljung_box_test corr X max_lags =
     Inr (map (\<lambda>(e, x). (e, qstat_ljung_box (fst (acf_sqr_ratio corr max_lags x))
                              (map (\<lambda>a. length x) (fst (acf_sqr_ratio corr max_lags x)))))
            (groupby (entity_values X)))"
proof -
  let ?agg = "map (\<lambda>(e, x). (e, acf_sqr_ratio corr max_lags x)) (groupby (entity_values X))"
  have ne: "lags max_lags \<noteq> []"
    using assms(2) by (simp add: lags_empty)
  have d: "distinct (map fst ?agg)"
    using groupby_distinct [of "entity_values X"] by (simp add: comp_def case_prod_unfold)
  have n: "\<forall>(k, xs, b) \<in> set ?agg. xs \<noteq> []"
    using ne by (auto simp: acf_sqr_ratio_eq)
  have "groupby (explode ?agg) = map (\<lambda>(k, xs, b). (k, map (\<lambda>x. (x, b)) xs)) ?agg"
    using d n by (rule groupby_explode)
  then show ?thesis
    using ne assms(1)
    by (simp add: ljung_box_test_def comp_def case_prod_unfold acf_sqr_ratio_eq)
qed

lemma groupby_series:
  assumes "e \<in> entities X"
  shows "(e, series_of X e) \<in> set (groupby (entity_values X))"
  using assms by (simp add: groupby_member entity_values_keys series_of_def)


lemma qstat_step:
  assumes "1 \<le> k" and "int k + 1 \<le> max_lags" and "Suc k < length x"
    and "\<forall>i \<in> {1..Suc k}. corr x (shift i x) i = Some (r i)"
  shows "\<exists>q q'. qstat_ljung_box (fst (acf_sqr_ratio corr max_lags x))
                   (map (\<lambda>a. length x) (fst (acf_sqr_ratio corr max_lags x))) ! (k - 1) = Some q \<and>
                 qstat_ljung_box (fst (acf_sqr_ratio corr max_lags x))
                   (map (\<lambda>a. length x) (fst (acf_sqr_ratio corr max_lags x))) ! k = Some q' \<and>
                 q \<le> q'"
proof -
  let ?Q = "qstat_ljung_box (fst (acf_sqr_ratio corr max_lags x))
              (map (\<lambda>a. length x) (fst (acf_sqr_ratio corr max_lags x)))"
  let ?n = "real (length x)"
  let ?m = "real (u32 (length x * u32 (length x + 2)))"
  let ?S = "\<lambda>k. \<Sum>i = 1..k. (r i) ^ 2 / (?n - real i)"
  from assms have a: "int k \<le> max_lags" "k < length x" "\<forall>i \<in> {1..k}. corr x (shift i x) i = Some (r i)"
    by auto
  have q: "?Q ! (k - 1) = Some (?m * ?S k)"
    using assms(1) a by (rule qstat_nth)
  from assms have b: "1 \<le> Suc k" "int (Suc k) \<le> max_lags" by simp_all
  have "?Q ! (Suc k - 1) = Some (?m * ?S (Suc k))"
    using b assms(3,4) by (rule qstat_nth)
  then have q': "?Q ! k = Some (?m * ?S (Suc k))" by simp
  from assms(3) have "0 < ?n - real (Suc k)" by simp
  then have "0 \<le> (r (Suc k)) ^ 2 / (?n - real (Suc k))" by simp
  then have "?S k \<le> ?S (Suc k)" by simp
  moreover have "0 \<le> ?m" by simp
  ultimately have "?m * ?S k \<le> ?m * ?S (Suc k)"
    by (rule mult_left_mono)
  with q q' show ?thesis by blast
qed

lemma u32_wraps: "u32 (65536 * u32 (65536 + 2)) = 131072"
  by (simp add: u32_def)

subsection \<open>The ACF engine\<close>

lemma agg_map:
  assumes "\<And>x. f (h x) = Inr (g x)"
  shows "agg f (map (\<lambda>(e, x). (e, h x)) G) = Inr (map (\<lambda>(e, x). (e, g x)) G)"
  using assms by (induction G) auto

lemma acf_formula_eq:
  "acf_formula corr x max_lags = (Some 1 # map (\<lambda>i. corr x (shift i x) i) (lags max_lags), length x)"
  by (simp add: acf_formula_def)

lemma acf_confint_formula_length:
  "length len = length A \<Longrightarrow> length (acf_confint_formula A len ppf) = length A"
  by (simp add: acf_confint_formula_def cumsum_length)

lemma acf_confint_formula_nth:
  assumes "j < length A" and "\<forall>i\<le>j. A ! i = Some (a i)"
  shows "acf_confint_formula A (map (\<lambda>a. n) A) ppf ! j =
           Some (ppf * sqrt ((1 / real n) * (1 + 2 * (\<Sum>i\<le>j. (a i) ^ 2))))"
proof -
  have "\<forall>i\<le>j. map (map_option (\<lambda>a. a ^ 2)) A ! i = Some ((a i) ^ 2)"
    using assms by auto
  with assms(1) have "cumsum (map (map_option (\<lambda>a. a ^ 2)) A) ! j = Some (\<Sum>i\<le>j. (a i) ^ 2)"
    by (intro cumsum_nth) simp_all
  then show ?thesis
    using assms(1) by (simp add: acf_confint_formula_def cumsum_length)
qed

lemma acf_interval_eq:
  assumes "1 \<le> max_lags" and "A \<noteq> []"
  shows "acf_interval ppf max_lags (map (\<lambda>a. (a, n)) A) =
           Inr (A, Some 0 # Some (ppf * sqrt (1 / real n)) #
                  take (nat (max_lags - 1)) (drop 1 (acf_confint_formula A (map (\<lambda>a. n) A) ppf)))"
  using assms by (cases A) (simp_all add: acf_interval_def slice_def comp_def Let_def)

lemma explode2_eq:
  assumes "\<And>x. length (fst (g x)) = length (snd (g x))"
  shows "explode2 (map (\<lambda>(e, x). (e, g x)) G) =
           Inr (explode_rows (map (\<lambda>(e, x). (e, zip (fst (g x)) (snd (g x)))) G))"
  using assms by (simp add: explode2_def list_all_iff case_prod_unfold comp_def)

lemma acf_rows:
  assumes "\<not> acf_name_clash (entity_col X)" and "1 \<le> max_lags"
  shows "acf norm_ppf corr X max_lags alpha =
     Inr (map (\<lambda>(e, x).
            (e, \<lparr>acf_col = Some 1 # map (\<lambda>i. corr x (shift i x) i) (lags max_lags),
                 confint_lower = map (\<lambda>(a, i). lift2 (-) a i)
                   (zip (Some 1 # map (\<lambda>i. corr x (shift i x) i) (lags max_lags))
                        (Some 0 # Some (norm_ppf (1 - alpha / 2) * sqrt (1 / real (length x))) #
                         take (nat (max_lags - 1)) (drop 1
                           (acf_confint_formula (Some 1 # map (\<lambda>i. corr x (shift i x) i) (lags max_lags))
                              (map (\<lambda>a. length x) (Some 1 # map (\<lambda>i. corr x (shift i x) i) (lags max_lags)))
                              (norm_ppf (1 - alpha / 2)))))),
                 confint_upper = map (\<lambda>(a, i). lift2 (+) a i)
                   (zip (Some 1 # map (\<lambda>i. corr x (shift i x) i) (lags max_lags))
                        (Some 0 # Some (norm_ppf (1 - alpha / 2) * sqrt (1 / real (length x))) #
                         take (nat (max_lags - 1)) (drop 1
                           (acf_confint_formula (Some 1 # map (\<lambda>i. corr x (shift i x) i) (lags max_lags))
                              (map (\<lambda>a. length x) (Some 1 # map (\<lambda>i. corr x (shift i x) i) (lags max_lags)))
                              (norm_ppf (1 - alpha / 2))))))\<rparr>))
          (groupby (demean X)))"
proof -
  define ppf where "ppf = norm_ppf (1 - alpha / 2)"
  define A where "A = (\<lambda>x. Some 1 # map (\<lambda>i. corr x (shift i x) i) (lags max_lags))"
  define I where "I = (\<lambda>x. Some 0 # Some (ppf * sqrt (1 / real (length x))) #
      take (nat (max_lags - 1)) (drop 1 (acf_confint_formula (A x) (map (\<lambda>a. length x) (A x)) ppf)))"
  define G where "G = groupby (demean X)"
  let ?agg = "map (\<lambda>(e, x). (e, acf_formula corr x max_lags)) G"
  have dG: "distinct (map fst G)"
    unfolding G_def by (rule groupby_distinct)
  have lenA: "length (A x) = Suc (nat max_lags)" for x
    by (simp add: A_def lags_length)
  have lenI: "length (I x) = Suc (nat max_lags)" for x
    using assms(2) by (simp add: I_def acf_confint_formula_length lenA)
  have "distinct (map fst ?agg)"
    using dG by (simp add: comp_def case_prod_unfold)
  moreover have "\<forall>(k, xs, b) \<in> set ?agg. xs \<noteq> []"
    by (auto simp: acf_formula_eq)
  ultimately have "groupby (explode ?agg) = map (\<lambda>(k, xs, b). (k, map (\<lambda>x. (x, b)) xs)) ?agg"
    by (rule groupby_explode)
  then have s1: "groupby (explode ?agg) = map (\<lambda>(e, x). (e, map (\<lambda>a. (a, length x)) (A x))) G"
    by (simp add: comp_def case_prod_unfold acf_formula_eq A_def)
  have "acf_interval ppf max_lags (map (\<lambda>a. (a, length x)) (A x)) = Inr (A x, I x)" for x
    unfolding I_def using assms(2) by (intro acf_interval_eq) (simp_all add: A_def)
  then have s2: "agg (acf_interval ppf max_lags) (groupby (explode ?agg)) =
      Inr (map (\<lambda>(e, x). (e, (A x, I x))) G)"
    unfolding s1 by (rule agg_map)
  have s3: "explode2 (map (\<lambda>(e, x). (e, (A x, I x))) G) =
      Inr (explode_rows (map (\<lambda>(e, x). (e, zip (A x) (I x))) G))"
    using explode2_eq [of "\<lambda>x. (A x, I x)" G] by (simp add: lenA lenI)
  have "distinct (map fst (map (\<lambda>(e, x). (e, zip (A x) (I x))) G))"
    using dG by (simp add: comp_def case_prod_unfold)
  moreover have "\<forall>(k, rs) \<in> set (map (\<lambda>(e, x). (e, zip (A x) (I x))) G). rs \<noteq> []"
    by (auto simp: A_def I_def)
  ultimately have s4: "groupby (explode_rows (map (\<lambda>(e, x). (e, zip (A x) (I x))) G)) =
      map (\<lambda>(e, x). (e, zip (A x) (I x))) G"
    by (rule groupby_explode_rows)
  have "acf norm_ppf corr X max_lags alpha =
      Inr (map (\<lambda>(e, x). (e, \<lparr>acf_col = map fst (zip (A x) (I x)),
                                confint_lower = map (\<lambda>(a, i). lift2 (-) a i) (zip (A x) (I x)),
                                confint_upper = map (\<lambda>(a, i). lift2 (+) a i) (zip (A x) (I x))\<rparr>)) G)"
    using s2 s3 s4 assms(1) unfolding acf_def Let_def ppf_def [symmetric] G_def [symmetric]
    by (simp add: comp_def case_prod_unfold)
  moreover have "map fst (zip (A x) (I x)) = A x" for x
    by (simp add: lenA lenI)
  ultimately show ?thesis
    unfolding A_def I_def ppf_def G_def by simp
qed

lemma groupby_demean:
  assumes "e \<in> entities X"
  shows "(e, map (\<lambda>v. v - mean (series_of X e)) (series_of X e)) \<in> set (groupby (demean X))"
proof -
  have keys: "fst ` set (demean X) = entities X"
    unfolding entity_values_keys [symmetric] by (force simp: demean_def)
  have "filter (\<lambda>r. fst r = e) (demean X) =
      map (\<lambda>(e', v). (e', v - mean (series_of X e'))) (filter (\<lambda>r. fst r = e) (entity_values X))"
    by (simp add: demean_def filter_map comp_def case_prod_unfold)
  then have "map snd (filter (\<lambda>r. fst r = e) (demean X)) =
      map (\<lambda>v. v - mean (series_of X e)) (series_of X e)"
    by (simp add: series_of_def comp_def case_prod_unfold)
  with assms keys show ?thesis
    by (simp add: groupby_member)
qed

lemma acf_interval_value:
  assumes "2 \<le> k" and "int k \<le> max_lags"
    and A: "A = Some 1 # map (\<lambda>i. corr x (shift i x) i) (lags max_lags)"
    and r: "\<forall>i \<in> {1..k}. corr x (shift i x) i = Some (r i)"
  shows "(Some 0 # Some (z * sqrt (1 / real (length x))) #
            take (nat (max_lags - 1)) (drop 1 (acf_confint_formula A (map (\<lambda>a. length x) A) z))) ! k =
         Some (z * sqrt ((2 + bartlett_var r k) / real (length x)))"
proof -
  let ?F = "acf_confint_formula A (map (\<lambda>a. length x) A) z"
  define a where "a = (\<lambda>i. if i = 0 then 1 else r i)"
  have lenA: "length A = Suc (nat max_lags)"
    by (simp add: A lags_length)
  then have lenF: "length ?F = Suc (nat max_lags)"
    by (simp add: acf_confint_formula_length)
  from assms(1) obtain k' where k': "k = Suc (Suc k')"
    by (metis Suc_le_D numeral_2_eq_2 Suc_le_mono)
  from assms(1,2) have kb: "k' < nat (max_lags - 1)" "k - 1 < length A" "Suc k' = k - 1"
    unfolding lenA k' by simp_all
  have Ai: "A ! i = Some (a i)" if "i \<le> k - 1" for i
  proof (cases i)
    case 0
    then show ?thesis by (simp add: A a_def)
  next
    case (Suc i')
    with that assms(1,2) have "i' < nat max_lags" "Suc i' \<in> {1..k}" by auto
    then show ?thesis
      using r by (simp add: Suc A a_def lags_length lags_nth)
  qed
  have "(Some 0 # Some (z * sqrt (1 / real (length x))) # take (nat (max_lags - 1)) (drop 1 ?F)) ! k =
      take (nat (max_lags - 1)) (drop 1 ?F) ! k'"
    by (simp add: k')
  also have "\<dots> = ?F ! (k - 1)"
    using kb lenF by simp
  also have "\<dots> = Some (z * sqrt ((1 / real (length x)) * (1 + 2 * (\<Sum>i\<le>k - 1. (a i) ^ 2))))"
    using kb(2) Ai by (intro acf_confint_formula_nth) simp_all
  also have "(\<Sum>i\<le>k - 1. (a i) ^ 2) = (a 0) ^ 2 + (\<Sum>i = Suc 0..k - 1. (a i) ^ 2)"
    unfolding atMost_atLeast0 by (rule sum.atLeast_Suc_atMost) simp
  also have "(\<Sum>i = Suc 0..k - 1. (a i) ^ 2) = (\<Sum>j = 1..k - 1. (r j) ^ 2)"
    by (intro sum.cong) (auto simp: a_def)
  finally have "(Some 0 # Some (z * sqrt (1 / real (length x))) # take (nat (max_lags - 1)) (drop 1 ?F)) ! k =
      Some (z * sqrt ((1 / real (length x)) * (1 + 2 * ((a 0) ^ 2 + (\<Sum>j = 1..k - 1. (r j) ^ 2)))))" .
  moreover have "(1 / real (length x)) * (1 + 2 * ((a 0) ^ 2 + (\<Sum>j = 1..k - 1. (r j) ^ 2))) =
      (2 + bartlett_var r k) / real (length x)"
    unfolding bartlett_var_def by (simp add: a_def distrib_left add_divide_distrib)
  ultimately show ?thesis
    by (simp only:)
qed

subsection \<open>Aggregation, joins and failures\<close>

lemma agg_Inl:
  "agg f G = Inl e \<Longrightarrow> \<exists>(k, vs) \<in> set G. f vs = Inl e"
  by (induction G) (auto split: sum.splits)

lemma agg_fails:
  assumes "(k, vs) \<in> set G" and "f vs = Inl e" and "\<And>ws e'. f ws = Inl e' \<Longrightarrow> e' = e"
  shows "agg f G = Inl e"
  using assms(1,2)
proof (induction G)
  case Nil
  then show ?case by simp
next
  case (Cons g G)
  obtain k' ws where g: "g = (k', ws)" by (cases g)
  show ?case
  proof (cases "f ws")
    case (Inl e')
    then show ?thesis using assms(3) g by simp
  next
    case (Inr w)
    with Cons g assms(2) have "agg f G = Inl e" by auto
    with Inr g show ?thesis by simp
  qed
qed

lemma agg_succeeds:
  assumes "\<forall>(k, vs) \<in> set G. f vs = Inr (h vs)"
  shows "agg f G = Inr (map (\<lambda>(k, vs). (k, h vs)) G)"
  using assms by (induction G) auto

lemma filter_key_distinct:
  "distinct (map fst l) \<Longrightarrow> (k, a) \<in> set l \<Longrightarrow> filter (\<lambda>x. fst x = k) l = [(k, a)]"
proof (induction l)
  case Nil
  then show ?case by simp
next
  case (Cons r l)
  show ?case
  proof (cases "fst r = k")
    case True
    with Cons.prems have "k \<notin> fst ` set l" by auto
    then have "filter (\<lambda>x. fst x = k) l = []" by (simp add: filter_absent)
    moreover from Cons.prems True \<open>k \<notin> fst ` set l\<close> have "r = (k, a)"
      by (cases r) (auto simp: image_iff)
    ultimately show ?thesis by simp
  next
    case False
    with Cons show ?thesis by auto
  qed
qed

lemma left_join_self:
  assumes "distinct (map fst l)"
  shows "left_join l l = map (\<lambda>(k, a). (k, a, Some a)) l"
proof -
  have "(case filter (\<lambda>x. fst x = k) l of [] \<Rightarrow> [(k, a, None)]
          | ms \<Rightarrow> map (\<lambda>x. (k, a, Some (snd x))) ms) = [(k, a, Some a)]"
    if "(k, a) \<in> set l" for k a
    using filter_key_distinct [OF assms that] by simp
  then have "map (\<lambda>(k, a). case filter (\<lambda>x. fst x = k) l of [] \<Rightarrow> [(k, a, None)]
                 | ms \<Rightarrow> map (\<lambda>x. (k, a, Some (snd x))) ms) l =
             map (\<lambda>(k, a). [(k, a, Some a)]) l"
    by (intro map_cong) auto
  then have "left_join l l = concat (map (\<lambda>(k, a). [(k, a, Some a)]) l)"
    unfolding left_join_def by (rule arg_cong)
  also have "\<dots> = map (\<lambda>(k, a). (k, a, Some a)) l"
    by (induction l) auto
  finally show ?thesis .
qed

lemma set_sort_nullable: "set (sort_nullable d key t) = set t"
  by (auto simp: sort_nullable_def Let_def)

lemma length_sort_nullable: "length (sort_nullable d key t) = length t"
proof -
  have "length (filter (\<lambda>r. key r = None) t) + length (filter (\<lambda>r. key r \<noteq> None) t) = length t"
    using sum_length_filter_compl [of "\<lambda>r. key r = None" t] by simp
  then show ?thesis by (simp add: sort_nullable_def Let_def)
qed



subsection \<open>Claims\<close>

text \<open>
  C1. Ranking by \<open>mean\<close> ascending should order the entities by their means. The code
  never gets that far: for every input, \<^verbatim>\<open>rank_forecasts\<close> fails with a
  \<open>TypeError\<close>, because it passes the keyword \<open>y\<close>, which \<^verbatim>\<open>_rank_entities\<close> does
  not have.
\<close>

theorem rank_forecasts_raises:
  "rank_forecasts pl y_pred y_true descending sort_by =
     Inl (TypeError ''_rank_entities() got an unexpected keyword argument y'')"
  by (simp add: rank_forecasts_def call_keywords_def)

text \<open>
  C2. The claim: at every lag \<open>k \<ge> 1\<close> the half-width of the confidence interval is
  \<open>z * sqrt (var / n)\<close> with Bartlett's \<open>var = 1 + 2 * (r\<^sub>1\<^sup>2 + ... + r\<^bsub>k-1\<^esub>\<^sup>2)\<close> and \<open>n\<close> the
  length of the entity's series. What \<^verbatim>\<open>acf\<close> computes, on a panel whose entity
  column does not clash with the query's own column names, at a lag \<open>k \<ge> 2\<close> whose
  autocorrelations \<open>r\<^sub>1, ..., r\<^sub>k\<close> (of the demeaned series \<open>x\<close>) are not null: the row of
  the entity has \<open>acf[k] = r\<^sub>k\<close> and the bounds \<open>r\<^sub>k - w\<close> and \<open>r\<^sub>k + w\<close> for the half-width
  \<open>w = z * sqrt ((2 + var) / n)\<close>. The cumulative sum runs over the whole \<^verbatim>\<open>acf\<close> column,
  squared lag 0 included, and is sliced afterwards; \<open>n\<close> is the original length.
  For the series 1, -1, 1, -1, 1, -1, 1 the lag-1 autocorrelation is -1, so at lag 2
  the half-width is \<open>z * sqrt (5 / 7)\<close>, where Bartlett's formula gives \<open>z * sqrt (3 / 7)\<close>.
\<close>

theorem acf_interval_adds_lag0:
  assumes "e \<in> entities X" and "\<not> acf_name_clash (entity_col X)"
    and "2 \<le> k" and "int k \<le> max_lags"
    and x: "x = map (\<lambda>v. v - mean (series_of X e)) (series_of X e)"
    and r: "\<forall>i \<in> {1..k}. corr x (shift i x) i = Some (r i)"
    and w: "w = norm_ppf (1 - alpha / 2) *
                  sqrt ((2 + bartlett_var r k) / real (length (series_of X e)))"
  shows "\<exists>t row. acf norm_ppf corr X max_lags alpha = Inr t \<and> distinct (map fst t) \<and>
           (e, row) \<in> set t \<and> acf_col row ! k = Some (r k) \<and>
           confint_lower row ! k = Some (r k - w) \<and>
           confint_upper row ! k = Some (r k + w)"
proof -
  define z where "z = norm_ppf (1 - alpha / 2)"
  define A where "A = Some 1 # map (\<lambda>i. corr x (shift i x) i) (lags max_lags)"
  define I where "I = Some 0 # Some (z * sqrt (1 / real (length x))) #
      take (nat (max_lags - 1)) (drop 1 (acf_confint_formula A (map (\<lambda>a. length x) A) z))"
  define row where "row = \<lparr>acf_col = A, confint_lower = map (\<lambda>(a, i). lift2 (-) a i) (zip A I),
      confint_upper = map (\<lambda>(a, i). lift2 (+) a i) (zip A I)\<rparr>"
  from assms have ml: "1 \<le> max_lags" by simp
  have lenA: "length A = Suc (nat max_lags)"
    by (simp add: A_def lags_length)
  have lenI: "length I = Suc (nat max_lags)"
    using ml by (simp add: I_def acf_confint_formula_length lenA)
  from assms have k: "k < Suc (nat max_lags)" "k - 1 < nat max_lags" "Suc (k - 1) = k" "k \<in> {1..k}"
    by simp_all
  obtain t where t: "acf norm_ppf corr X max_lags alpha = Inr t"
    and rows: "t = map (\<lambda>(e, x).
            (e, \<lparr>acf_col = Some 1 # map (\<lambda>i. corr x (shift i x) i) (lags max_lags),
                 confint_lower = map (\<lambda>(a, i). lift2 (-) a i)
                   (zip (Some 1 # map (\<lambda>i. corr x (shift i x) i) (lags max_lags))
                        (Some 0 # Some (norm_ppf (1 - alpha / 2) * sqrt (1 / real (length x))) #
                         take (nat (max_lags - 1)) (drop 1
                           (acf_confint_formula (Some 1 # map (\<lambda>i. corr x (shift i x) i) (lags max_lags))
                              (map (\<lambda>a. length x) (Some 1 # map (\<lambda>i. corr x (shift i x) i) (lags max_lags)))
                              (norm_ppf (1 - alpha / 2)))))),
                 confint_upper = map (\<lambda>(a, i). lift2 (+) a i)
                   (zip (Some 1 # map (\<lambda>i. corr x (shift i x) i) (lags max_lags))
                        (Some 0 # Some (norm_ppf (1 - alpha / 2) * sqrt (1 / real (length x))) #
                         take (nat (max_lags - 1)) (drop 1
                           (acf_confint_formula (Some 1 # map (\<lambda>i. corr x (shift i x) i) (lags max_lags))
                              (map (\<lambda>a. length x) (Some 1 # map (\<lambda>i. corr x (shift i x) i) (lags max_lags)))
                              (norm_ppf (1 - alpha / 2))))))\<rparr>))
          (groupby (demean X))"
    using acf_rows [OF assms(2) ml] by blast
  have d: "distinct (map fst t)"
    unfolding rows using groupby_distinct [of "demean X"] by (simp add: comp_def case_prod_unfold)
  have "(e, x) \<in> set (groupby (demean X))"
    unfolding x using assms(1) by (rule groupby_demean)
  then have m: "(e, row) \<in> set t"
    unfolding rows row_def I_def A_def z_def by force
  have "A ! k = corr x (shift k x) k"
    using k by (simp add: A_def nth_Cons' lags_length lags_nth)
  with r k(4) have Ak: "A ! k = Some (r k)"
    by simp
  then have a: "acf_col row ! k = Some (r k)"
    by (simp add: row_def)
  have "I ! k = Some (z * sqrt ((2 + bartlett_var r k) / real (length x)))"
    unfolding I_def using assms(3,4) A_def r by (rule acf_interval_value)
  then have i: "I ! k = Some w"
    by (simp add: w z_def x)
  have l: "confint_lower row ! k = Some (r k - w)"
    using k by (simp add: row_def lenA lenI i Ak lift2_def)
  have u: "confint_upper row ! k = Some (r k + w)"
    using k by (simp add: row_def lenA lenI i Ak lift2_def)
  from t d m a l u show ?thesis
    by blast
qed

theorem acf_interval_adds_lag0_witness:
  "\<forall>z \<rho>. \<exists>t row. acf (\<lambda>p. z) (\<lambda>a b d. if d = 1 then Some (- 1) else Some \<rho>)
       \<lparr>entity_col = ''id'', time_col = ''t'', target_col = ''y'',
        rows = [(''A'', 0, 1), (''A'', 1, - 1), (''A'', 2, 1), (''A'', 3, - 1), (''A'', 4, 1),
                (''A'', 5, - 1), (''A'', 6, 1)]\<rparr>
       2 (1 / 20) = Inr t \<and>
     distinct (map fst t) \<and> (''A'', row) \<in> set t \<and> acf_col row ! 2 = Some \<rho> \<and>
     confint_lower row ! 2 = Some (\<rho> - z * sqrt (5 / 7)) \<and>
     confint_upper row ! 2 = Some (\<rho> + z * sqrt (5 / 7)) \<and>
     bartlett_var (\<lambda>i. if i = 1 then - 1 else \<rho>) 2 / 7 = 3 / 7"
proof (intro allI)
  fix z \<rho> :: real
  show "\<exists>t row. acf (\<lambda>p. z) (\<lambda>a b d. if d = 1 then Some (- 1) else Some \<rho>)
       \<lparr>entity_col = ''id'', time_col = ''t'', target_col = ''y'',
        rows = [(''A'', 0, 1), (''A'', 1, - 1), (''A'', 2, 1), (''A'', 3, - 1), (''A'', 4, 1),
                (''A'', 5, - 1), (''A'', 6, 1)]\<rparr>
       2 (1 / 20) = Inr t \<and>
     distinct (map fst t) \<and> (''A'', row) \<in> set t \<and> acf_col row ! 2 = Some \<rho> \<and>
     confint_lower row ! 2 = Some (\<rho> - z * sqrt (5 / 7)) \<and>
     confint_upper row ! 2 = Some (\<rho> + z * sqrt (5 / 7)) \<and>
     bartlett_var (\<lambda>i. if i = 1 then - 1 else \<rho>) 2 / 7 = 3 / 7"
    using acf_interval_adds_lag0 [where e = "''A''"
        and X = "\<lparr>entity_col = ''id'', time_col = ''t'', target_col = ''y'',
          rows = [(''A'', 0, 1), (''A'', 1, - 1), (''A'', 2, 1), (''A'', 3, - 1), (''A'', 4, 1),
                (''A'', 5, - 1), (''A'', 6, 1)]\<rparr>"
        and x = "map (\<lambda>v. v - mean [1, - 1, 1, - 1, 1, - 1, 1]) [1, - 1, 1, - 1, 1, - 1, 1]"
        and k = 2 and max_lags = 2 and alpha = "1 / 20" and norm_ppf = "\<lambda>p. z"
        and corr = "\<lambda>a b d. if d = 1 then Some (- 1) else Some \<rho>"
        and r = "\<lambda>i. if i = 1 then - 1 else \<rho>" and w = "z * sqrt (5 / 7)"]
    by (simp add: entities_def series_of_def entity_values_def acf_name_clash_def
        starts_with_def bartlett_var_def)
qed

text \<open>
  C3. \<^verbatim>\<open>rank_residuals\<close> should accept all five residual criteria. The two
  autocorrelation criteria are missing from its dict: the lookup raises \<open>KeyError\<close>.
\<close>

theorem rank_residuals_autocor_raises:
  "rank_residuals y_resids ''autocor_lb'' max_lags alpha = Inl (KeyError ''autocor_lb'') \<and>
   rank_residuals y_resids ''autocor_bg'' max_lags alpha = Inl (KeyError ''autocor_bg'')"
  by (simp add: rank_residuals_def sort_by_to_expr_def)

text \<open>
  C4, as claimed: the sort value of \<open>bias\<close> and \<open>abs_bias\<close> is the mean of the
  absolute residuals. For an entity with residuals 1 and -1 that mean is 1; the code
  gives 0.
\<close>

theorem rank_residuals_mean_abs_counterexample:
  "rank_residuals \<lparr>entity_col = ''id'', time_col = ''t'', target_col = ''resid'',
       rows = [(''A'', 0, 1), (''A'', 1, -1)]\<rparr> ''bias'' 12 0.05 = Inr [(''A'', 0)] \<and>
   mean_abs (series_of \<lparr>entity_col = ''id'', time_col = ''t'', target_col = ''resid'',
       rows = [(''A'', 0, 1), (''A'', 1, -1)]\<rparr> ''A'') = 1"
  by (simp add: rank_residuals_def sort_by_to_expr_def entity_values_def
      sort_frame_def mean_def mean_abs_def series_of_def)

text \<open>
  C4, amended: for \<open>bias\<close> and \<open>abs_bias\<close>, on a panel whose entity column is not itself
  named like the criterion, \<^verbatim>\<open>rank_residuals\<close> returns one row per entity of the
  panel, whose sort value is the absolute value of the mean of that entity's residuals,
  in ascending order of that value.
\<close>

theorem rank_residuals_abs_of_mean:
  assumes "sort_by = ''bias'' \<or> sort_by = ''abs_bias''"
    and "entity_col y_resids \<noteq> sort_by"
  shows "\<exists>t. rank_residuals y_resids sort_by max_lags alpha = Inr t \<and>
           sorted (map snd t) \<and> distinct (map fst t) \<and> fst ` set t = entities y_resids \<and>
           (\<forall>(e, v) \<in> set t. v = \<bar>mean (series_of y_resids e)\<bar>)"
proof -
  let ?g = "groupby (entity_values y_resids)"
  let ?t = "map (\<lambda>(k, vs). (k, \<bar>mean vs\<bar>)) ?g"
  have expr: "map_of sort_by_to_expr sort_by = Some (\<lambda>gs. Inr (map (\<lambda>(e, vs). (e, \<bar>mean vs\<bar>)) gs))"
    using assms(1) by (auto simp: sort_by_to_expr_def)
  with assms(2) have res: "rank_residuals y_resids sort_by max_lags alpha = Inr (sort_frame False ?t)"
    by (auto simp: rank_residuals_def)
  have keys: "map fst ?t = map fst ?g"
    by (simp add: comp_def case_prod_unfold)
  have d: "distinct (map fst (sort_frame False ?t))"
    using groupby_distinct [of "entity_values y_resids"] keys
    by (simp only: distinct_keys_sort_frame)
  have "fst ` set ?t = fst ` set ?g"
    using keys by (metis image_set)
  then have k: "fst ` set (sort_frame False ?t) = entities y_resids"
    by (simp only: set_sort_frame groupby_keys entity_values_keys)
  have v: "\<forall>(e, v) \<in> set (sort_frame False ?t). v = \<bar>mean (series_of y_resids e)\<bar>"
    by (auto simp: set_sort_frame groupby_member series_of_def)
  from res d k v show ?thesis
    by (auto simp: sorted_sort_frame)
qed

theorem rank_residuals_abs_of_mean_witness:
  "\<exists>t. rank_residuals \<lparr>entity_col = ''id'', time_col = ''t'', target_col = ''resid'',
       rows = [(''A'', 0, 3), (''B'', 0, -2), (''A'', 1, -1)]\<rparr> ''abs_bias'' 12 0.05 = Inr t \<and>
     sorted (map snd t) \<and> distinct (map fst t) \<and> t = [(''A'', 1), (''B'', 2)]"
  using rank_residuals_abs_of_mean [of "''abs_bias''"
      "\<lparr>entity_col = ''id'', time_col = ''t'', target_col = ''resid'',
        rows = [(''A'', 0, 3), (''B'', 0, -2), (''A'', 1, -1)]\<rparr>" 12 "0.05"]
  by (simp add: rank_residuals_def sort_by_to_expr_def entity_values_def
      sort_frame_def mean_def)




text \<open>
  C6, as claimed: whenever the series is longer than \<open>max_lags\<close>, \<open>Q[k] \<le> Q[k + 1]\<close>.
  A series of three rows is longer than \<open>max_lags = 2\<close>, but its Q-statistic at depth 2
  is missing: there is nothing to compare \<open>Q[1]\<close> with.
\<close>

theorem ljung_box_short_series_counterexample:
  "\<exists>qs. ljung_box_test (\<lambda>a b d. if d = 1 then Some 1 else None)
       \<lparr>entity_col = ''id'', time_col = ''t'', target_col = ''y'',
        rows = [(''A'', 0, 2), (''A'', 1, 4), (''A'', 2, 6)]\<rparr> 2 = Inr [(''A'', qs)] \<and>
     qs ! 0 = Some (15 / 2) \<and> qs ! 1 = None"
  by (simp add: ljung_box_test_def ljung_box_name_clash_def starts_with_def lags_def
      entity_values_def acf_sqr_ratio_def explode_def explode_rows_def qstat_ljung_box_def
      cumsum_def u32_def upt_rec)

text \<open>
  C6, amended: on a panel whose entity column does not clash with the query's own
  column names, for an entity and a lag depth \<open>k\<close> from 1 to \<open>max_lags - 1\<close>, \<open>k + 1 < n\<close>,
  at which the autocorrelations of the lags 1 to \<open>k + 1\<close> are not null, both
  Q-statistics are numbers and \<open>Q[k] \<le> Q[k + 1]\<close>.
\<close>

theorem ljung_box_Q_nondecreasing:
  assumes "e \<in> entities X" and "\<not> ljung_box_name_clash (entity_col X)"
    and "x = series_of X e" and "1 \<le> k" and "int k + 1 \<le> max_lags"
    and "Suc k < length x"
    and "\<forall>i \<in> {1..Suc k}. corr x (shift i x) i = Some (r i)"
  shows "\<exists>t qs q q'. ljung_box_test corr X max_lags = Inr t \<and> distinct (map fst t) \<and>
           (e, qs) \<in> set t \<and> length qs = nat max_lags \<and>
           qs ! (k - 1) = Some q \<and> qs ! k = Some q' \<and> q \<le> q'"
proof -
  let ?Q = "\<lambda>x. qstat_ljung_box (fst (acf_sqr_ratio corr max_lags x))
                  (map (\<lambda>a. length x) (fst (acf_sqr_ratio corr max_lags x)))"
  let ?t = "map (\<lambda>(e, x). (e, ?Q x)) (groupby (entity_values X))"
  from assms have ml: "1 \<le> max_lags" by simp
  with assms(2) have t: "ljung_box_test corr X max_lags = Inr ?t"
    by (rule ljung_box_rows)
  have d: "distinct (map fst ?t)"
    using groupby_distinct [of "entity_values X"] by (simp add: comp_def case_prod_unfold)
  have m: "(e, ?Q x) \<in> set ?t"
    using groupby_series [OF assms(1)] assms(3) by force
  have l: "length (?Q x) = nat max_lags"
    by (rule qstat_length)
  obtain q q' where "?Q x ! (k - 1) = Some q" "?Q x ! k = Some q'" "q \<le> q'"
    using qstat_step [where k = k and max_lags = max_lags and x = x and corr = corr and r = r]
      assms(4,5,6,7) by blast
  with t d m l show ?thesis
    by blast
qed

theorem ljung_box_Q_nondecreasing_witness:
  "\<forall>\<rho>. \<exists>t qs q q'. ljung_box_test (\<lambda>a b d. if d = 1 then Some (- 1) else Some \<rho>)
       \<lparr>entity_col = ''id'', time_col = ''t'', target_col = ''y'',
        rows = [(''A'', 0, 1), (''A'', 1, - 1), (''A'', 2, 1), (''A'', 3, - 1), (''A'', 4, 1),
                (''A'', 5, - 1), (''A'', 6, 1)]\<rparr> 2 = Inr t \<and>
     distinct (map fst t) \<and> (''A'', qs) \<in> set t \<and> length qs = 2 \<and>
     qs ! 0 = Some q \<and> qs ! 1 = Some q' \<and> q \<le> q'"
proof
  fix \<rho> :: real
  show "\<exists>t qs q q'. ljung_box_test (\<lambda>a b d. if d = 1 then Some (- 1) else Some \<rho>)
       \<lparr>entity_col = ''id'', time_col = ''t'', target_col = ''y'',
        rows = [(''A'', 0, 1), (''A'', 1, - 1), (''A'', 2, 1), (''A'', 3, - 1), (''A'', 4, 1),
                (''A'', 5, - 1), (''A'', 6, 1)]\<rparr> 2 = Inr t \<and>
     distinct (map fst t) \<and> (''A'', qs) \<in> set t \<and> length qs = 2 \<and>
     qs ! 0 = Some q \<and> qs ! 1 = Some q' \<and> q \<le> q'"
    using ljung_box_Q_nondecreasing [where e = "''A''"
        and X = "\<lparr>entity_col = ''id'', time_col = ''t'', target_col = ''y'',
          rows = [(''A'', 0, 1), (''A'', 1, - 1), (''A'', 2, 1), (''A'', 3, - 1), (''A'', 4, 1),
                (''A'', 5, - 1), (''A'', 6, 1)]\<rparr>"
        and x = "[1, - 1, 1, - 1, 1, - 1, 1]" and k = 1 and max_lags = 2
        and corr = "\<lambda>a b d. if d = 1 then Some (- 1) else Some \<rho>"
        and r = "\<lambda>i. if i = 1 then - 1 else \<rho>"]
    by (simp add: entities_def series_of_def entity_values_def ljung_box_name_clash_def
        starts_with_def numeral_2_eq_2)
qed

text \<open>
  C7. When the benchmark predictions are the predictions themselves, and the metric
  gives one score per entity, every row of \<^verbatim>\<open>rank_fva\<close> has \<open>uplift = 0\<close> and
  \<open>has_uplift = False\<close>, and there is one row for every scored entity.
\<close>

theorem rank_fva_same_benchmark:
  assumes "m = (case scoring of None \<Rightarrow> smape | Some f \<Rightarrow> f)"
    and "distinct (map fst (on_frames m y_true y_pred))"
  shows "\<exists>t. rank_fva smape y_true y_pred (Some y_pred) scoring descending = Inr t \<and>
           length t = length (on_frames m y_true y_pred) \<and>
           fst ` set t = fst ` set (on_frames m y_true y_pred) \<and>
           (\<forall>(e, r) \<in> set t. uplift r = Some 0 \<and> has_uplift r = Some False)"
proof -
  let ?s = "on_frames m y_true y_pred"
  let ?rows = "map (\<lambda>(e, score, bench).
                  (e, \<lparr>uplift = map_option (\<lambda>b. b - score) bench,
                       has_uplift = map_option (\<lambda>b. b - score > 0) bench\<rparr>))
                (left_join ?s ?s)"
  let ?t = "sort_nullable descending (\<lambda>r. uplift (snd r)) ?rows"
  have t: "rank_fva smape y_true y_pred (Some y_pred) scoring descending = Inr ?t"
    by (simp add: rank_fva_def call_metric_def assms(1) Let_def)
  have rows: "?rows = map (\<lambda>(e, score). (e, \<lparr>uplift = Some 0, has_uplift = Some False\<rparr>)) ?s"
    by (simp add: left_join_self [OF assms(2)] comp_def case_prod_unfold)
  have l: "length ?t = length ?s"
    unfolding length_sort_nullable rows by simp
  have k: "fst ` set ?t = fst ` set ?s"
    unfolding set_sort_nullable rows by force
  have v: "\<forall>(e, r) \<in> set ?t. uplift r = Some 0 \<and> has_uplift r = Some False"
    unfolding set_sort_nullable rows by auto
  from t l k v show ?thesis by blast
qed

theorem rank_fva_same_benchmark_witness:
  "\<exists>t. rank_fva \<lparr>on_frames = \<lambda>y_true y_pred. [(''A'', 1 / 2), (''B'', 1 / 4)],
                  on_dict = \<lambda>y_true. Inl (AttributeError ''dict'')\<rparr>
       \<lparr>entity_col = ''id'', time_col = ''t'', target_col = ''y'', rows = [(''A'', 0, 1), (''B'', 0, 2)]\<rparr>
       \<lparr>entity_col = ''id'', time_col = ''t'', target_col = ''y'', rows = [(''A'', 0, 2), (''B'', 0, 3)]\<rparr>
       (Some \<lparr>entity_col = ''id'', time_col = ''t'', target_col = ''y'', rows = [(''A'', 0, 2), (''B'', 0, 3)]\<rparr>)
       None False = Inr t \<and>
     length t = 2 \<and> fst ` set t = {''A'', ''B''} \<and>
     (\<forall>(e, r) \<in> set t. uplift r = Some 0 \<and> has_uplift r = Some False)"
  using rank_fva_same_benchmark [where scoring = None
      and m = "\<lparr>on_frames = \<lambda>y_true y_pred. [(''A'', 1 / 2), (''B'', 1 / 4)],
                 on_dict = \<lambda>y_true. Inl (AttributeError ''dict'')\<rparr>"
      and smape = "\<lparr>on_frames = \<lambda>y_true y_pred. [(''A'', 1 / 2), (''B'', 1 / 4)],
                 on_dict = \<lambda>y_true. Inl (AttributeError ''dict'')\<rparr>"
      and y_true = "\<lparr>entity_col = ''id'', time_col = ''t'', target_col = ''y'', rows = [(''A'', 0, 1), (''B'', 0, 2)]\<rparr>"
      and y_pred = "\<lparr>entity_col = ''id'', time_col = ''t'', target_col = ''y'', rows = [(''A'', 0, 2), (''B'', 0, 3)]\<rparr>"
      and descending = False]
  by (simp add: numeral_2_eq_2)




text \<open>
  C9, as claimed: an entity below the minimum sample size is reported alone and the
  other entities still get their statistic. With a minimum of 8 samples, entity \<open>A\<close> of
  8 values and entity \<open>B\<close> of one value, the whole call fails: \<open>A\<close> gets no result.
\<close>

theorem normality_test_entity_too_short_counterexample:
  "normality_test (normaltest 8 (\<lambda>xs. 0))
     \<lparr>entity_col = ''id'', time_col = ''t'', target_col = ''y'',
      rows = [(''A'', 0, 1), (''A'', 1, 2), (''A'', 2, 3), (''A'', 3, 4), (''A'', 4, 5),
              (''A'', 5, 6), (''A'', 6, 7), (''A'', 7, 8), (''B'', 0, 1)]\<rparr> =
   Inl InsufficientSamples"
  by (simp add: normality_test_def apply_groups_def normaltest_def entity_values_def)

text \<open>
  C9, amended: on a panel with at least one row, \<^verbatim>\<open>normality_test\<close> is all or
  nothing. When some entity's series is below the minimum sample size of the normality
  primitive, the whole call fails with the primitive's \<open>InsufficientSamples\<close> failure
  and returns no result for any entity; when every entity meets the minimum, it returns
  exactly one row per entity, holding the statistic of that entity's values.
\<close>

theorem normality_test_all_or_nothing:
  assumes "rows X \<noteq> []"
  shows "((\<exists>e \<in> entities X. length (series_of X e) < min_size) \<longrightarrow>
            normality_test (normaltest min_size statistic) X = Inl InsufficientSamples) \<and>
         ((\<forall>e \<in> entities X. min_size \<le> length (series_of X e)) \<longrightarrow>
            (\<exists>t. normality_test (normaltest min_size statistic) X = Inr t \<and>
                 distinct (map fst t) \<and>
                 set t = (\<lambda>e. (e, statistic (series_of X e))) ` entities X))"
proof -
  let ?G = "groupby (entity_values X)"
  from assms obtain r rs where "entity_values X = r # rs"
    by (cases "rows X") (auto simp: entity_values_def)
  then have ne: "?G \<noteq> []"
    by (cases r) simp
  have short: "normality_test (normaltest min_size statistic) X = Inl InsufficientSamples"
    if "\<exists>e \<in> entities X. length (series_of X e) < min_size"
  proof -
    from that obtain e where e: "e \<in> entities X" "length (series_of X e) < min_size" by blast
    then have "(e, series_of X e) \<in> set ?G"
      by (simp add: groupby_series)
    moreover have "normaltest min_size statistic (series_of X e) = Inl InsufficientSamples"
      using e by (simp add: normaltest_def)
    moreover have "e' = InsufficientSamples" if "normaltest min_size statistic ws = Inl e'" for ws e'
      using that by (simp add: normaltest_def split: if_splits)
    ultimately have "agg (normaltest min_size statistic) ?G = Inl InsufficientSamples"
      by (rule agg_fails)
    with ne show ?thesis by (simp add: normality_test_def apply_groups_def)
  qed
  have long: "\<exists>t. normality_test (normaltest min_size statistic) X = Inr t \<and>
                 distinct (map fst t) \<and>
                 set t = (\<lambda>e. (e, statistic (series_of X e))) ` entities X"
    if all: "\<forall>e \<in> entities X. min_size \<le> length (series_of X e)"
  proof -
    let ?t = "map (\<lambda>(k, vs). (k, statistic vs)) ?G"
    have "\<forall>(k, vs) \<in> set ?G. normaltest min_size statistic vs = Inr (statistic vs)"
    proof (clarify)
      fix k vs
      assume "(k, vs) \<in> set ?G"
      then have "k \<in> entities X" "vs = series_of X k"
        by (simp_all add: groupby_member entity_values_keys series_of_def)
      with all show "normaltest min_size statistic vs = Inr (statistic vs)"
        by (auto simp: normaltest_def)
    qed
    then have "agg (normaltest min_size statistic) ?G = Inr ?t"
      by (rule agg_succeeds)
    with ne have t: "normality_test (normaltest min_size statistic) X = Inr ?t"
      by (simp add: normality_test_def apply_groups_def)
    have d: "distinct (map fst ?t)"
      using groupby_distinct [of "entity_values X"] by (simp add: comp_def case_prod_unfold)
    have "set ?G = (\<lambda>e. (e, series_of X e)) ` entities X"
      by (auto simp: groupby_member entity_values_keys series_of_def)
    then have s: "set ?t = (\<lambda>e. (e, statistic (series_of X e))) ` entities X"
      by (simp add: image_image)
    from t d s show ?thesis by blast
  qed
  from short long show ?thesis by blast
qed

theorem normality_test_all_or_nothing_witness:
  "normality_test (normaltest 2 (\<lambda>xs. sum_list xs))
     \<lparr>entity_col = ''id'', time_col = ''t'', target_col = ''y'',
      rows = [(''A'', 0, 1), (''A'', 1, 2), (''B'', 0, 1)]\<rparr> = Inl InsufficientSamples \<and>
   (\<exists>t. normality_test (normaltest 1 (\<lambda>xs. sum_list xs))
     \<lparr>entity_col = ''id'', time_col = ''t'', target_col = ''y'',
      rows = [(''A'', 0, 1), (''A'', 1, 2), (''B'', 0, 1)]\<rparr> = Inr t \<and>
     distinct (map fst t) \<and> set t = {(''A'', 3), (''B'', 1)})"
proof -
  let ?X = "\<lparr>entity_col = ''id'', time_col = ''t'', target_col = ''y'',
      rows = [(''A'', 0, 1), (''A'', 1, 2), (''B'', 0, 1)]\<rparr>"
  have ne: "rows ?X \<noteq> []" by simp
  show ?thesis
    using normality_test_all_or_nothing [OF ne, of 2 "\<lambda>xs. sum_list xs"]
      normality_test_all_or_nothing [OF ne, of 1 "\<lambda>xs. sum_list xs"]
    by (simp add: entities_def series_of_def entity_values_def insert_commute)
qed



end
